theory Spec2Isabelle
  imports Main "HOL-Library.Word" "HOL-Library.Multiset" "HOL-Library.AList"
begin

section \<open>Values, objects and the heap\<close>

text \<open>
  The library works on JavaScript values. Primitive values are compared by content,
  objects by reference, and the apply/revert half mutates objects in place, so objects
  live in an explicit heap and a value of object type is a reference into it.

  The fragment that is modelled: \<open>undefined\<close>, \<open>null\<close>, booleans, numbers (the integers and
  \<open>NaN\<close>), strings, and four kinds of object: arrays (a slot is \<open>None\<close> for a hole),
  plain objects (their own enumerable string-keyed properties, in enumeration order),
  dates (the time value, \<open>NaN\<close> for an invalid date, and the text \<open>toString()\<close> gives) and
  regular expressions (the text \<open>toString()\<close> gives). Functions, symbols, the \<open>Math\<close>
  object, prototype chains, getters and non-integral numbers are outside the fragment.
\<close>

type_synonym addr = nat

datatype jsnum = Fin int | NaN

datatype jsval = VUndefined | VNull | VBool bool | VNum jsnum | VStr string | VRef addr

datatype obj =
    OArray "jsval option list"
  | OObject "(string \<times> jsval) list"
  | ODate jsnum string
  | ORegExp string

type_synonym heap = "obj list"

text \<open>JavaScript has no dangling reference; an address outside the heap reads as an
  empty plain object so that every function below is total.\<close>

definition deref :: "heap \<Rightarrow> addr \<Rightarrow> obj" where
  "deref h a = (if a < length h then h ! a else OObject [])"

text \<open>What went wrong, as a value: \<open>TypeError\<close> and \<open>RangeError\<close> (the call stack is
  exhausted: the fuel of a recursion ran out) are the exceptions the engine can raise;
  \<open>Unmodelled\<close> marks a step that leaves the fragment above.\<close>

datatype error = TypeError | RangeError | Unmodelled

fun typeof :: "jsval \<Rightarrow> string" where
  "typeof VUndefined = ''undefined''"
| "typeof VNull = ''object''"
| "typeof (VBool b) = ''boolean''"
| "typeof (VNum x) = ''number''"
| "typeof (VStr s) = ''string''"
| "typeof (VRef a) = ''object''"

fun truthy :: "jsval \<Rightarrow> bool" where
  "truthy VUndefined = False"
| "truthy VNull = False"
| "truthy (VBool b) = b"
| "truthy (VNum x) = (x \<noteq> Fin 0 \<and> x \<noteq> NaN)"
| "truthy (VStr s) = (s \<noteq> [])"
| "truthy (VRef a) = True"

text \<open>\<open>lhs !== rhs\<close>: strict inequality; \<open>NaN\<close> differs from itself.\<close>

definition strict_neq :: "jsval \<Rightarrow> jsval \<Rightarrow> bool" where
  "strict_neq x y = (x \<noteq> y \<or> x = VNum NaN)"

definition isNaN :: "jsval \<Rightarrow> bool" where
  "isNaN x = (x = VNum NaN)"

subsection \<open>utils.js\<close>

fun realTypeOf :: "heap \<Rightarrow> jsval \<Rightarrow> string" where
  "realTypeOf h (VRef a) =
     (case deref h a of
        OArray xs \<Rightarrow> ''array''
      | ODate t s \<Rightarrow> ''date''
      | ORegExp s \<Rightarrow> ''regexp''
      | OObject ps \<Rightarrow> ''object'')"
| "realTypeOf h VNull = ''null''"
| "realTypeOf h v = typeof v"

text \<open>\<open>hashThisString\<close>: \<open>hash = (hash << 5) - hash + char\<close>, then \<open>hash & hash\<close>, which
  brings the number back to a signed 32-bit integer after every character: arithmetic
  on a 32-bit word, read as signed at the end. A \<open>char\<close> here is one code unit below 256.\<close>

definition hashThisString :: "string \<Rightarrow> int" where
  "hashThisString string =
     (if length string = 0 then 0
      else sint (fold (\<lambda>c hash. push_bit 5 hash - hash + of_nat (of_char c)) string (0 :: 32 word)))"

text \<open>The decimal text of an integer, as a template literal prints a number.\<close>

fun show_nat :: "nat \<Rightarrow> string" where
  "show_nat n = (if n < 10 then [''0123456789'' ! n]
                 else show_nat (n div 10) @ [''0123456789'' ! (n mod 10)])"

declare show_nat.simps [simp del]

definition show_int :: "int \<Rightarrow> string" where
  "show_int i = (if i < 0 then CHR ''-'' # show_nat (nat (- i)) else show_nat (nat i))"

text \<open>\<open>`${object}`\<close> for a value that is neither an array nor a plain object.\<close>

fun toText :: "heap \<Rightarrow> jsval \<Rightarrow> string" where
  "toText h VUndefined = ''undefined''"
| "toText h VNull = ''null''"
| "toText h (VBool b) = (if b then ''true'' else ''false'')"
| "toText h (VNum (Fin i)) = show_int i"
| "toText h (VNum NaN) = ''NaN''"
| "toText h (VStr s) = s"
| "toText h (VRef a) =
     (case deref h a of ODate t s \<Rightarrow> s | ORegExp s \<Rightarrow> s | OArray xs \<Rightarrow> [] | OObject ps \<Rightarrow> ''[object Object]'')"

text \<open>The sum of the hashes of the parts; one part that does not return leaves no sum.\<close>

definition sum_hashes :: "int option list \<Rightarrow> int option" where
  "sum_hashes rs = (if None \<in> set rs then None else Some (sum_list (map the rs)))"

definition present :: "jsval option list \<Rightarrow> jsval list" where
  "present xs = map the (filter (\<lambda>s. s \<noteq> None) xs)"

definition lookup :: "(string \<times> jsval) list \<Rightarrow> string \<Rightarrow> jsval" where
  "lookup ps k = (case map_of ps k of None \<Rightarrow> VUndefined | Some v \<Rightarrow> v)"

text \<open>\<open>getOrderIndependentHash\<close>. The first argument bounds the depth of the recursion:
  on a cyclic value the JavaScript never returns (the host ends it with a
  \<open>RangeError\<close>), which is the result \<open>None\<close> here. \<open>forEach\<close> skips the holes of an array;
  \<open>for ... in\<close> with \<open>hasOwnProperty\<close> visits the own enumerable keys.\<close>

fun getOrderIndependentHash :: "nat \<Rightarrow> heap \<Rightarrow> jsval \<Rightarrow> int option" where
  "getOrderIndependentHash 0 h object = None"
| "getOrderIndependentHash (Suc n) h object =
     (if realTypeOf h object = ''array'' then
        (case object of
           VRef a \<Rightarrow>
             (case deref h a of
                OArray xs \<Rightarrow>
                  (case sum_hashes (map (getOrderIndependentHash n h) (present xs)) of
                     None \<Rightarrow> None
                   | Some accum \<Rightarrow>
                       Some (accum + hashThisString (''[type: array, hash: '' @ show_int accum @ '']'')))
              | _ \<Rightarrow> None)
         | _ \<Rightarrow> None)
      else if realTypeOf h object = ''object'' then
        (case object of
           VRef a \<Rightarrow>
             (case deref h a of
                OObject ps \<Rightarrow>
                  sum_hashes
                    (map (\<lambda>key.
                       map_option
                         (\<lambda>vh. hashThisString
                            (''[ type: object, key: '' @ key @ '', value hash: '' @ show_int vh @ '' ]''))
                         (getOrderIndependentHash n h (lookup ps key)))
                     (map fst ps))
              | _ \<Rightarrow> None)
         | _ \<Rightarrow> None)
      else Some (hashThisString
                   (''[ type: '' @ realTypeOf h object @ '' ; value: '' @ toText h object @ '' ]'')))"

text \<open>\<open>arr.sort((a, b) => getOrderIndependentHash(a) - getOrderIndependentHash(b))\<close>:
  the sort of the host is stable, puts \<open>undefined\<close> behind every other element without
  asking the comparator and the holes last; with fewer than two other elements the
  comparator is never called.\<close>

definition sortByHash :: "nat \<Rightarrow> heap \<Rightarrow> jsval option list \<Rightarrow> error + jsval option list" where
  "sortByHash n h xs =
     (let defined = filter (\<lambda>v. v \<noteq> VUndefined) (present xs);
          undefs = filter (\<lambda>v. v = VUndefined) (present xs);
          holes = replicate (length xs - length (present xs)) None
      in if length defined < 2 then Inr (map Some defined @ map Some undefs @ holes)
         else if list_ex (\<lambda>v. getOrderIndependentHash n h v = None) defined then Inl RangeError
         else Inr (map Some (sort_key (\<lambda>v. the (getOrderIndependentHash n h v)) defined)
                   @ map Some undefs @ holes))"

text \<open>\<open>arrayRemove(arr, from)\<close>, called with two arguments only:
  \<open>rest = arr.slice(from + 1)\<close>, \<open>arr.length = from\<close> (which cuts the array or extends it
  with holes), \<open>arr.push(...rest)\<close> (the spread reads a hole as \<open>undefined\<close>).\<close>

definition arrayRemove :: "jsval option list \<Rightarrow> nat \<Rightarrow> jsval option list" where
  "arrayRemove arr from =
     (let rest = drop (from + 1) arr;
          cut = (if from \<le> length arr then take from arr
                 else arr @ replicate (from - length arr) None)
      in cut @ map (\<lambda>s. Some (case s of None \<Rightarrow> VUndefined | Some v \<Rightarrow> v)) rest)"

section \<open>Change records\<close>

text \<open>A path segment is a property name or an array index.\<close>

datatype pkey = KStr string | KNum nat

type_synonym path = "pkey list"

text \<open>A change record as the replay engine reads it: every field may be missing.\<close>

datatype change =
  Change (ckind: "string option") (cpath: "path option") (clhs: jsval) (crhs: jsval)
         (cindex: "nat option") (citem: "change option")

text \<open>Modelled from the spec: the four constructors of \<open>diffs.js\<close>, which is not among the
  sources. A record holds its kind tag (\<open>N\<close>, \<open>D\<close>, \<open>E\<close>, \<open>A\<close>), the path it was given, and
  \<open>lhs\<close>/\<open>rhs\<close>/\<open>index\<close>/\<open>item\<close> as its kind requires.\<close>

definition DiffNew :: "path option \<Rightarrow> jsval \<Rightarrow> change" where
  "DiffNew p v = Change (Some ''N'') p VUndefined v None None"

definition DiffDeleted :: "path option \<Rightarrow> jsval \<Rightarrow> change" where
  "DiffDeleted p v = Change (Some ''D'') p v VUndefined None None"

definition DiffEdit :: "path option \<Rightarrow> jsval \<Rightarrow> jsval \<Rightarrow> change" where
  "DiffEdit p l r = Change (Some ''E'') p l r None None"

definition DiffArray :: "path option \<Rightarrow> nat \<Rightarrow> change \<Rightarrow> change" where
  "DiffArray p i it = Change (Some ''A'') p VUndefined VUndefined (Some i) (Some it)"

section \<open>Reading and writing properties\<close>

definition slot_val :: "jsval option list \<Rightarrow> nat \<Rightarrow> jsval" where
  "slot_val xs i = (if i < length xs then (case xs ! i of None \<Rightarrow> VUndefined | Some v \<Rightarrow> v) else VUndefined)"

text \<open>\<open>it[k]\<close>. Reading a property of \<open>undefined\<close> or \<open>null\<close> throws. An array is read at
  an index and a plain object at a name, where a missing own property reads as
  \<open>undefined\<close>; every other combination leaves the fragment.\<close>

fun getp :: "heap \<Rightarrow> jsval \<Rightarrow> pkey \<Rightarrow> error + jsval" where
  "getp h VUndefined k = Inl TypeError"
| "getp h VNull k = Inl TypeError"
| "getp h (VRef a) k =
     (case deref h a of
        OArray xs \<Rightarrow> (case k of KNum i \<Rightarrow> Inr (slot_val xs i) | KStr s \<Rightarrow> Inl Unmodelled)
      | OObject ps \<Rightarrow> (case k of KStr s \<Rightarrow> Inr (lookup ps s) | KNum i \<Rightarrow> Inl Unmodelled)
      | ODate t s \<Rightarrow> Inl Unmodelled
      | ORegExp s \<Rightarrow> Inl Unmodelled)"
| "getp h v k = Inl Unmodelled"

text \<open>\<open>Object.keys(o)\<close>.\<close>

fun ownKeys :: "obj \<Rightarrow> string list" where
  "ownKeys (OObject ps) = map fst ps"
| "ownKeys (OArray xs) = map show_nat (filter (\<lambda>i. xs ! i \<noteq> None) [0..<length xs])"
| "ownKeys (ODate t s) = []"
| "ownKeys (ORegExp s) = []"

text \<open>\<open>Object.getOwnPropertyDescriptor(o, key)\<close> is truthy. \<open>deepDiff\<close> asks an array for
  an index and a plain object for a name only.\<close>

fun hasOwn :: "heap \<Rightarrow> jsval \<Rightarrow> pkey option \<Rightarrow> bool" where
  "hasOwn h (VRef a) (Some k) =
     (case deref h a of
        OArray xs \<Rightarrow> (case k of KNum i \<Rightarrow> i < length xs \<and> xs ! i \<noteq> None | KStr s \<Rightarrow> False)
      | OObject ps \<Rightarrow> (case k of KStr s \<Rightarrow> s \<in> set (map fst ps) | KNum i \<Rightarrow> False)
      | ODate t s \<Rightarrow> False
      | ORegExp s \<Rightarrow> False)"
| "hasOwn h v k = False"

section \<open>The comparison engine\<close>

text \<open>The \<open>prefilter\<close> argument: absent, a function, or an object with an optional
  \<open>prefilter\<close> and an optional \<open>normalize\<close> function. The callbacks are the caller's; they
  are pure functions here.\<close>

datatype prefilter =
    NoPrefilter
  | PrefilterFun "path \<Rightarrow> pkey \<Rightarrow> bool"
  | PrefilterObj "(path \<Rightarrow> pkey \<Rightarrow> bool) option"
                 "(path \<Rightarrow> pkey \<Rightarrow> jsval \<Rightarrow> jsval \<Rightarrow> (jsval \<times> jsval) option) option"

text \<open>Lines 23 to 40: \<open>None\<close> when the node is filtered out (the early \<open>return\<close>),
  otherwise the two sides, replaced by what \<open>normalize\<close> returned if it returned a pair.\<close>

fun gate :: "prefilter \<Rightarrow> path \<Rightarrow> pkey \<Rightarrow> jsval \<Rightarrow> jsval \<Rightarrow> (jsval \<times> jsval) option" where
  "gate NoPrefilter currentPath key lhs rhs = Some (lhs, rhs)"
| "gate (PrefilterFun f) currentPath key lhs rhs =
     (if f currentPath key then None else Some (lhs, rhs))"
| "gate (PrefilterObj pre norm) currentPath key lhs rhs =
     (if (case pre of None \<Rightarrow> False | Some f \<Rightarrow> f currentPath key) then None
      else (case norm of
              None \<Rightarrow> Some (lhs, rhs)
            | Some g \<Rightarrow> (case g currentPath key lhs rhs of None \<Rightarrow> Some (lhs, rhs) | Some alt \<Rightarrow> Some alt)))"

text \<open>\<open>lhs - rhs\<close> on two dates subtracts their time values.\<close>

definition timeValue :: "heap \<Rightarrow> jsval \<Rightarrow> jsnum" where
  "timeValue h v = (case v of VRef a \<Rightarrow> (case deref h a of ODate t s \<Rightarrow> t | _ \<Rightarrow> NaN) | _ \<Rightarrow> NaN)"

fun minus_num :: "jsnum \<Rightarrow> jsnum \<Rightarrow> jsnum" where
  "minus_num (Fin x) (Fin y) = Fin (x - y)"
| "minus_num x y = NaN"

fun indexOf :: "'a list \<Rightarrow> 'a \<Rightarrow> nat option" where
  "indexOf [] x = None"
| "indexOf (y # ys) x = (if y = x then Some 0 else map_option Suc (indexOf ys x))"

type_synonym stack = "(jsval \<times> jsval) list"

text \<open>Lines 89 to 92: both arrays are sorted in place, \<open>lhs\<close> first. The hash of an
  element gets more fuel than the heap has objects: enough for every value that is not
  cyclic, while on a cyclic one no amount would do.\<close>

definition sortBoth :: "heap \<Rightarrow> addr \<Rightarrow> addr \<Rightarrow> error + heap" where
  "sortBoth h a b =
     (case deref h a of
        OArray xs \<Rightarrow>
          (case sortByHash (Suc (length h)) h xs of
             Inl e \<Rightarrow> Inl e
           | Inr xs' \<Rightarrow>
               (let h1 = h[a := OArray xs'] in
                case deref h1 b of
                  OArray ys \<Rightarrow>
                    (case sortByHash (Suc (length h1)) h1 ys of
                       Inl e \<Rightarrow> Inl e
                     | Inr ys' \<Rightarrow> Inr (h1[b := OArray ys']))
                | _ \<Rightarrow> Inl Unmodelled))
      | _ \<Rightarrow> Inl Unmodelled)"

definition arrayOf :: "heap \<Rightarrow> addr \<Rightarrow> jsval option list" where
  "arrayOf h a = (case deref h a of OArray xs \<Rightarrow> xs | _ \<Rightarrow> [])"

text \<open>
  \<open>deepDiff(lhs, rhs, changes, prefilter, path, key, stack, orderIndependent)\<close>. The heap
  is threaded through because the sort of lines 90 and 91 writes to it; \<open>changes\<close> is the
  list the records are pushed to, returned extended. The stack is restored on the way
  out (line 134), so it is passed down only. A missing \<open>key\<close> is \<open>None\<close>; the caller's
  \<open>null\<close> for \<open>path\<close> and \<open>stack\<close> is the empty list (lines 17, 18).
\<close>

type_synonym differ =
  "heap \<Rightarrow> jsval \<Rightarrow> jsval \<Rightarrow> change list \<Rightarrow> prefilter \<Rightarrow> path \<Rightarrow> pkey option \<Rightarrow> stack \<Rightarrow> bool
     \<Rightarrow> error + (heap \<times> change list)"

text \<open>The three loops that call \<open>deepDiff\<close> again; \<open>self\<close> is that recursive call.
  \<open>diffElems\<close> is the loop of lines 105 to 107 over the common indices, from the highest
  down.\<close>

fun diffElems :: "differ \<Rightarrow> heap \<Rightarrow> jsval \<Rightarrow> jsval \<Rightarrow> nat list \<Rightarrow> change list \<Rightarrow> prefilter \<Rightarrow> path
                    \<Rightarrow> stack \<Rightarrow> bool \<Rightarrow> error + (heap \<times> change list)" where
  "diffElems self h lhs rhs [] changes pf path stack oi = Inr (h, changes)"
| "diffElems self h lhs rhs (i # is) changes pf path stack oi =
     (case getp h lhs (KNum i) of
        Inl e \<Rightarrow> Inl e
      | Inr l \<Rightarrow>
          (case getp h rhs (KNum i) of
             Inl e \<Rightarrow> Inl e
           | Inr r \<Rightarrow>
               (case self h l r changes pf path (Some (KNum i)) stack oi of
                  Inl e \<Rightarrow> Inl e
                | Inr hc \<Rightarrow> diffElems self (fst hc) lhs rhs is (snd hc) pf path stack oi)))"

text \<open>\<open>diffKeysL\<close> is the loop of lines 112 to 123 over the keys of \<open>lhs\<close>; it returns
  \<open>pkeys\<close> with the keys it met set to \<open>null\<close>.\<close>

fun diffKeysL :: "differ \<Rightarrow> heap \<Rightarrow> jsval \<Rightarrow> jsval \<Rightarrow> string list \<Rightarrow> string option list
                    \<Rightarrow> change list \<Rightarrow> prefilter \<Rightarrow> path \<Rightarrow> stack \<Rightarrow> bool
                    \<Rightarrow> error + ((heap \<times> change list) \<times> string option list)" where
  "diffKeysL self h lhs rhs [] pkeys changes pf path stack oi = Inr ((h, changes), pkeys)"
| "diffKeysL self h lhs rhs (k # akeys) pkeys changes pf path stack oi =
     (case getp h lhs (KStr k) of
        Inl e \<Rightarrow> Inl e
      | Inr l \<Rightarrow>
          (case indexOf pkeys (Some k) of
             Some other \<Rightarrow>
               (case getp h rhs (KStr k) of
                  Inl e \<Rightarrow> Inl e
                | Inr r \<Rightarrow>
                    (case self h l r changes pf path (Some (KStr k)) stack oi of
                       Inl e \<Rightarrow> Inl e
                     | Inr hc \<Rightarrow>
                         diffKeysL self (fst hc) lhs rhs akeys (pkeys[other := None]) (snd hc)
                           pf path stack oi))
           | None \<Rightarrow>
               (case self h l VUndefined changes pf path (Some (KStr k)) stack oi of
                  Inl e \<Rightarrow> Inl e
                | Inr hc \<Rightarrow>
                    diffKeysL self (fst hc) lhs rhs akeys pkeys (snd hc) pf path stack oi)))"

text \<open>\<open>diffKeysR\<close> is the loop of lines 125 to 131 over what is left of \<open>pkeys\<close>;
  \<open>if (k)\<close> passes over \<open>null\<close> and over the empty name.\<close>

fun diffKeysR :: "differ \<Rightarrow> heap \<Rightarrow> jsval \<Rightarrow> string option list \<Rightarrow> change list \<Rightarrow> prefilter \<Rightarrow> path
                    \<Rightarrow> stack \<Rightarrow> bool \<Rightarrow> error + (heap \<times> change list)" where
  "diffKeysR self h rhs [] changes pf path stack oi = Inr (h, changes)"
| "diffKeysR self h rhs (k # pkeys) changes pf path stack oi =
     (case k of
        None \<Rightarrow> diffKeysR self h rhs pkeys changes pf path stack oi
      | Some s \<Rightarrow>
          if s \<noteq> [] then
            (case getp h rhs (KStr s) of
               Inl e \<Rightarrow> Inl e
             | Inr r \<Rightarrow>
                 (case self h VUndefined r changes pf path (Some (KStr s)) stack oi of
                    Inl e \<Rightarrow> Inl e
                  | Inr hc \<Rightarrow> diffKeysR self (fst hc) rhs pkeys (snd hc) pf path stack oi))
          else diffKeysR self h rhs pkeys changes pf path stack oi)"

text \<open>Lines 94 to 103: the records for the tail of the longer array, from the last index
  down; \<open>i\<close> and \<open>j\<close> are the two lengths.\<close>

definition tailChanges :: "path \<Rightarrow> jsval option list \<Rightarrow> jsval option list \<Rightarrow> change list" where
  "tailChanges currentPath lhs rhs =
     (let i = length rhs; j = length lhs
      in map (\<lambda>i. DiffArray (Some currentPath) i (DiffNew None (slot_val rhs i))) (rev [j..<i])
         @ map (\<lambda>j. DiffArray (Some currentPath) j (DiffDeleted None (slot_val lhs j))) (rev [i..<j]))"

text \<open>Lines 86 to 134: the descent into two objects \<open>lhs = VRef a\<close> and \<open>rhs = VRef b\<close>
  that the stack does not hold yet.\<close>

definition descend :: "differ \<Rightarrow> heap \<Rightarrow> addr \<Rightarrow> addr \<Rightarrow> change list \<Rightarrow> prefilter \<Rightarrow> path \<Rightarrow> stack
                         \<Rightarrow> bool \<Rightarrow> error + (heap \<times> change list)" where
  "descend self h a b changes pf currentPath stack oi =
     (let stack1 = stack @ [(VRef a, VRef b)]
      in case deref h a of
           OArray xs \<Rightarrow>
             (case (if oi then sortBoth h a b else Inr h) of
                Inl e \<Rightarrow> Inl e
              | Inr h1 \<Rightarrow>
                  diffElems self h1 (VRef a) (VRef b)
                    (rev [0..<min (length (arrayOf h1 b)) (length (arrayOf h1 a))])
                    (changes @ tailChanges currentPath (arrayOf h1 a) (arrayOf h1 b))
                    pf currentPath stack1 oi)
         | _ \<Rightarrow>
             (let akeys = ownKeys (deref h a);
                  pkeys = map Some (ownKeys (deref h b))
              in case diffKeysL self h (VRef a) (VRef b) akeys pkeys changes pf currentPath stack1 oi of
                   Inl e \<Rightarrow> Inl e
                 | Inr r \<Rightarrow>
                     diffKeysR self (fst (fst r)) (VRef b) (snd r) (snd (fst r)) pf currentPath
                       stack1 oi))"

text \<open>Lines 55 to 67: a side is defined when it is not \<open>undefined\<close>, or when the object
  above it (on top of the stack) owns the property \<open>key\<close>; \<open>side\<close> picks \<open>lhs\<close> or \<open>rhs\<close> of
  the frame.\<close>

definition isDefined :: "heap \<Rightarrow> jsval \<Rightarrow> (jsval \<times> jsval \<Rightarrow> jsval) \<Rightarrow> stack \<Rightarrow> pkey option \<Rightarrow> bool" where
  "isDefined h v side stack key =
     (typeof v \<noteq> ''undefined'' \<or>
      (stack \<noteq> [] \<and> truthy (side (last stack)) \<and> hasOwn h (side (last stack)) key))"

text \<open>Lines 50 to 142: the comparison of the two sides, once the prefilter and the
  regular expressions are dealt with.\<close>

definition compare :: "differ \<Rightarrow> heap \<Rightarrow> jsval \<Rightarrow> jsval \<Rightarrow> change list \<Rightarrow> prefilter \<Rightarrow> path
                         \<Rightarrow> pkey option \<Rightarrow> stack \<Rightarrow> bool \<Rightarrow> error + (heap \<times> change list)" where
  "compare self h lhs rhs changes pf currentPath key stack oi =
     (let ltype = typeof lhs;
          ldefined = isDefined h lhs fst stack key;
          rdefined = isDefined h rhs snd stack key
      in if \<not> ldefined \<and> rdefined then Inr (h, changes @ [DiffNew (Some currentPath) rhs])
         else if \<not> rdefined \<and> ldefined then Inr (h, changes @ [DiffDeleted (Some currentPath) lhs])
         else if realTypeOf h lhs \<noteq> realTypeOf h rhs then
           Inr (h, changes @ [DiffEdit (Some currentPath) lhs rhs])
         else if realTypeOf h lhs = ''date''
                 \<and> minus_num (timeValue h lhs) (timeValue h rhs) \<noteq> Fin 0 then
           Inr (h, changes @ [DiffEdit (Some currentPath) lhs rhs])
         else if ltype = ''object'' \<and> lhs \<noteq> VNull \<and> rhs \<noteq> VNull then
           (case lhs of
              VRef a \<Rightarrow>
                (case rhs of
                   VRef b \<Rightarrow>
                     if \<not> list_ex (\<lambda>frame. fst frame = lhs) stack then
                       descend self h a b changes pf currentPath stack oi
                     else if lhs \<noteq> rhs then
                       Inr (h, changes @ [DiffEdit (Some currentPath) lhs rhs])
                     else Inr (h, changes)
                 | _ \<Rightarrow> Inl Unmodelled)
            | _ \<Rightarrow> Inl Unmodelled)
         else if strict_neq lhs rhs then
           (if \<not> (ltype = ''number'' \<and> isNaN lhs \<and> isNaN rhs)
            then Inr (h, changes @ [DiffEdit (Some currentPath) lhs rhs])
            else Inr (h, changes))
         else Inr (h, changes))"

text \<open>One call of \<open>deepDiff\<close>: the prefilter gate and \<open>currentPath\<close> (lines 20 to 43), two
  regular expressions replaced by their texts (lines 45 to 48), then the comparison.\<close>

definition deepDiffBody :: "differ \<Rightarrow> differ" where
  "deepDiffBody self h lhs0 rhs0 changes pf path key stack oi =
     (case (case key of None \<Rightarrow> Some (lhs0, rhs0) | Some k \<Rightarrow> gate pf path k lhs0 rhs0) of
        None \<Rightarrow> Inr (h, changes)
      | Some sides \<Rightarrow>
          (let currentPath = (case key of None \<Rightarrow> path | Some k \<Rightarrow> path @ [k]);
               regexps = (realTypeOf h (fst sides) = ''regexp'' \<and> realTypeOf h (snd sides) = ''regexp'');
               lhs = (if regexps then VStr (toText h (fst sides)) else fst sides);
               rhs = (if regexps then VStr (toText h (snd sides)) else snd sides)
           in compare self h lhs rhs changes pf currentPath key stack oi))"

text \<open>The recursion. The first argument is fuel: every call takes one unit, as it takes
  one frame of the call stack, and a call without fuel is the host's \<open>RangeError\<close>.\<close>

primrec deepDiff :: "nat \<Rightarrow> differ" where
  "deepDiff 0 = (\<lambda>h lhs rhs changes pf path key stack oi. Inl RangeError)"
| "deepDiff (Suc n) = deepDiffBody (deepDiff n)"

subsection \<open>The entry points\<close>

text \<open>The options object. Any key may be present; the ones that matter are the three
  that the code reads, \<open>prefilter\<close>, \<open>accummulator\<close> (as line 181 spells it) and
  \<open>orderIndependent\<close>, and \<open>accumulator\<close>, the key that the documentation of \<open>diff\<close> names.\<close>

record options =
  prefilter :: prefilter
  accummulator :: "change list option"
  accumulator :: "change list option"
  orderIndependent :: bool

definition noOptions :: options where
  "noOptions = \<lparr>prefilter = NoPrefilter, accummulator = None, accumulator = None,
                 orderIndependent = False\<rparr>"

text \<open>\<open>observableDiff(lhs, rhs, observer, options)\<close>. The observer is the caller's: it is
  a function on a state of the caller's, run over the records in emission order once the
  walk is over (lines 161 to 165).\<close>

definition observableDiff :: "nat \<Rightarrow> heap \<Rightarrow> jsval \<Rightarrow> jsval \<Rightarrow> (change \<Rightarrow> 's \<Rightarrow> 's) option \<Rightarrow> 's
                                \<Rightarrow> options \<Rightarrow> error + (heap \<times> change list \<times> 's)" where
  "observableDiff n h lhs rhs observer st opts =
     (case deepDiff n h lhs rhs [] (prefilter opts) [] None [] (orderIndependent opts) of
        Inl e \<Rightarrow> Inl e
      | Inr hc \<Rightarrow>
          Inr (fst hc, snd hc, (case observer of None \<Rightarrow> st | Some f \<Rightarrow> fold f (snd hc) st)))"

text \<open>What \<open>diff\<close> returns: the accumulator, the array of changes, or \<open>undefined\<close>.\<close>

datatype diff_result = Accumulator "change list" | Changes "change list" | NoChanges

definition diff :: "nat \<Rightarrow> heap \<Rightarrow> jsval \<Rightarrow> jsval \<Rightarrow> options \<Rightarrow> error + (heap \<times> diff_result)" where
  "diff n h lhs rhs opts =
     (let observer = (case accummulator opts of
                        Some acc \<Rightarrow> Some (\<lambda>difference acc. acc @ [difference])
                      | None \<Rightarrow> None)
      in case observableDiff n h lhs rhs observer
                (case accummulator opts of Some acc \<Rightarrow> acc | None \<Rightarrow> [])
                \<lparr>prefilter = prefilter opts, accummulator = None, accumulator = None,
                 orderIndependent = orderIndependent opts\<rparr> of
           Inl e \<Rightarrow> Inl e
         | Inr r \<Rightarrow>
             Inr (fst r,
                  (case accummulator opts of
                     Some acc \<Rightarrow> Accumulator (snd (snd r))
                   | None \<Rightarrow> if fst (snd r) \<noteq> [] then Changes (fst (snd r)) else NoChanges)))"

section \<open>The replay engine\<close>

text \<open>\<open>it[k] = v\<close>. The module is strict code: writing a property of a primitive value
  throws, as it does for \<open>undefined\<close> and \<open>null\<close>. Writing past the end of an array leaves
  holes; a new property of a plain object comes last in its enumeration.\<close>

definition set_slot :: "jsval option list \<Rightarrow> nat \<Rightarrow> jsval \<Rightarrow> jsval option list" where
  "set_slot xs i v =
     (if i < length xs then xs[i := Some v] else xs @ replicate (i - length xs) None @ [Some v])"

fun setp :: "heap \<Rightarrow> jsval \<Rightarrow> pkey \<Rightarrow> jsval \<Rightarrow> error + heap" where
  "setp h (VRef a) k v =
     (case deref h a of
        OArray xs \<Rightarrow> (case k of KNum i \<Rightarrow> Inr (h[a := OArray (set_slot xs i v)]) | KStr s \<Rightarrow> Inl Unmodelled)
      | OObject ps \<Rightarrow> (case k of KStr s \<Rightarrow> Inr (h[a := OObject (AList.update s v ps)]) | KNum i \<Rightarrow> Inl Unmodelled)
      | ODate t s \<Rightarrow> Inl Unmodelled
      | ORegExp s \<Rightarrow> Inl Unmodelled)"
| "setp h it k v = Inl TypeError"

text \<open>\<open>delete it[k]\<close>. Deleting an element of an array leaves a hole and keeps the
  length.\<close>

fun delp :: "heap \<Rightarrow> jsval \<Rightarrow> pkey \<Rightarrow> error + heap" where
  "delp h VUndefined k = Inl TypeError"
| "delp h VNull k = Inl TypeError"
| "delp h (VRef a) k =
     (case deref h a of
        OArray xs \<Rightarrow>
          (case k of
             KNum i \<Rightarrow> Inr (h[a := OArray (if i < length xs then xs[i := None] else xs)])
           | KStr s \<Rightarrow> Inl Unmodelled)
      | OObject ps \<Rightarrow> (case k of KStr s \<Rightarrow> Inr (h[a := OObject (AList.delete s ps)]) | KNum i \<Rightarrow> Inl Unmodelled)
      | ODate t s \<Rightarrow> Inl Unmodelled
      | ORegExp s \<Rightarrow> Inl Unmodelled)"
| "delp h (VStr s) k = Inl Unmodelled"
| "delp h it k = Inr h"

text \<open>\<open>arr = arrayRemove(arr, index)\<close> on the heap; a value without \<open>slice\<close> throws.\<close>

definition removeAt :: "heap \<Rightarrow> jsval \<Rightarrow> nat \<Rightarrow> error + heap" where
  "removeAt h arr index =
     (case arr of
        VRef a \<Rightarrow> (case deref h a of OArray xs \<Rightarrow> Inr (h[a := OArray (arrayRemove xs index)]) | _ \<Rightarrow> Inl TypeError)
      | VStr s \<Rightarrow> Inl Unmodelled
      | _ \<Rightarrow> Inl TypeError)"

text \<open>\<open>change.path[i]\<close> as a property key: past the end it is \<open>undefined\<close>, which names
  the property \<open>"undefined"\<close>.\<close>

definition keyAt :: "path \<Rightarrow> nat \<Rightarrow> pkey" where
  "keyAt p i = (if i < length p then p ! i else KStr ''undefined'')"

text \<open>\<open>for (i = 0; i < u; i++) it = it[change.path[i]]\<close>.\<close>

fun readWalk :: "heap \<Rightarrow> jsval \<Rightarrow> path \<Rightarrow> error + jsval" where
  "readWalk h it [] = Inr it"
| "readWalk h it (k # ks) = (case getp h it k of Inl e \<Rightarrow> Inl e | Inr v \<Rightarrow> readWalk h v ks)"

text \<open>\<open>arr[index]\<close> where \<open>index\<close> is the \<open>index\<close> field of a record, which may be missing.\<close>

definition indexKey :: "nat option \<Rightarrow> pkey" where
  "indexKey index = (case index of Some i \<Rightarrow> KNum i | None \<Rightarrow> KStr ''undefined'')"

definition removeIndex :: "heap \<Rightarrow> jsval \<Rightarrow> nat option \<Rightarrow> error + heap" where
  "removeIndex h arr index = (case index of Some i \<Rightarrow> removeAt h arr i | None \<Rightarrow> Inl Unmodelled)"

definition hasPath :: "path option \<Rightarrow> bool" where
  "hasPath p = (case p of None \<Rightarrow> False | Some ks \<Rightarrow> ks \<noteq> [])"

definition pathOf :: "path option \<Rightarrow> path" where
  "pathOf p = (case p of None \<Rightarrow> [] | Some ks \<Rightarrow> ks)"

text \<open>The key of the slot a record is about, \<open>change.path[i]\<close> after the walk: the last
  segment, and \<open>undefined\<close> when the path is empty.\<close>

definition lastKey :: "path \<Rightarrow> pkey" where
  "lastKey p = keyAt p (length p - 1)"

text \<open>\<open>applyArrayChange(arr, index, change)\<close>, lines 205 to 244. Its third argument is the
  \<open>item\<close> of the record above, which may be missing.\<close>

fun applyArrayChange :: "heap \<Rightarrow> jsval \<Rightarrow> nat option \<Rightarrow> change option \<Rightarrow> error + heap" where
  "applyArrayChange h arr index None = Inl TypeError"
| "applyArrayChange h arr index (Some (Change kind path lhs rhs idx item)) =
     (if hasPath path then
        (case getp h arr (indexKey index) of
           Inl e \<Rightarrow> Inl e
         | Inr it0 \<Rightarrow>
             (case readWalk h it0 (butlast (pathOf path)) of
                Inl e \<Rightarrow> Inl e
              | Inr it \<Rightarrow>
                  if kind = Some ''A'' then
                    (case getp h it (lastKey (pathOf path)) of
                       Inl e \<Rightarrow> Inl e
                     | Inr v \<Rightarrow> applyArrayChange h v idx item)
                  else if kind = Some ''D'' then delp h it (lastKey (pathOf path))
                  else if kind = Some ''E'' \<or> kind = Some ''N'' then setp h it (lastKey (pathOf path)) rhs
                  else Inr h))
      else
        (if kind = Some ''A'' then
           (case getp h arr (indexKey index) of
              Inl e \<Rightarrow> Inl e
            | Inr v \<Rightarrow> applyArrayChange h v idx item)
         else if kind = Some ''D'' then removeIndex h arr index
         else if kind = Some ''E'' \<or> kind = Some ''N'' then setp h arr (indexKey index) rhs
         else Inr h))"

text \<open>\<open>revertArrayChange(arr, index, change)\<close>, lines 253 to 296.\<close>

fun revertArrayChange :: "heap \<Rightarrow> jsval \<Rightarrow> nat option \<Rightarrow> change option \<Rightarrow> error + heap" where
  "revertArrayChange h arr index None = Inl TypeError"
| "revertArrayChange h arr index (Some (Change kind path lhs rhs idx item)) =
     (if hasPath path then
        (case getp h arr (indexKey index) of
           Inl e \<Rightarrow> Inl e
         | Inr it0 \<Rightarrow>
             (case readWalk h it0 (butlast (pathOf path)) of
                Inl e \<Rightarrow> Inl e
              | Inr it \<Rightarrow>
                  if kind = Some ''A'' then
                    (case getp h it (lastKey (pathOf path)) of
                       Inl e \<Rightarrow> Inl e
                     | Inr v \<Rightarrow> revertArrayChange h v idx item)
                  else if kind = Some ''D'' \<or> kind = Some ''E'' then setp h it (lastKey (pathOf path)) lhs
                  else if kind = Some ''N'' then delp h it (lastKey (pathOf path))
                  else Inr h))
      else
        (if kind = Some ''A'' then
           (case getp h arr (indexKey index) of
              Inl e \<Rightarrow> Inl e
            | Inr v \<Rightarrow> revertArrayChange h v idx item)
         else if kind = Some ''D'' \<or> kind = Some ''E'' then setp h arr (indexKey index) lhs
         else if kind = Some ''N'' then removeIndex h arr index
         else Inr h))"

text \<open>Lines 317 to 324: the walk of \<open>applyChange\<close> over every segment but the last. A
  missing step is created, an array if the next segment is a number and a plain object
  otherwise; the new object takes the next free address.\<close>

fun applyWalk :: "heap \<Rightarrow> jsval \<Rightarrow> path \<Rightarrow> error + (heap \<times> jsval)" where
  "applyWalk h it (k # k' # ks) =
     (case getp h it k of
        Inl e \<Rightarrow> Inl e
      | Inr v \<Rightarrow>
          (case (if typeof v = ''undefined''
                 then setp (h @ [case k' of KNum i \<Rightarrow> OArray [] | KStr s \<Rightarrow> OObject []]) it k
                        (VRef (length h))
                 else Inr h) of
             Inl e \<Rightarrow> Inl e
           | Inr h1 \<Rightarrow>
               (case getp h1 it k of
                  Inl e \<Rightarrow> Inl e
                | Inr it' \<Rightarrow> applyWalk h1 it' (k' # ks))))"
| "applyWalk h it ks = Inr (h, it)"

text \<open>Lines 376 to 382: the walk of \<open>revertChange\<close>; a missing step is always created as
  a plain object.\<close>

fun revertWalk :: "heap \<Rightarrow> jsval \<Rightarrow> path \<Rightarrow> error + (heap \<times> jsval)" where
  "revertWalk h it (k # k' # ks) =
     (case getp h it k of
        Inl e \<Rightarrow> Inl e
      | Inr v \<Rightarrow>
          (case (if typeof v = ''undefined''
                 then setp (h @ [OObject []]) it k (VRef (length h))
                 else Inr h) of
             Inl e \<Rightarrow> Inl e
           | Inr h1 \<Rightarrow>
               (case getp h1 it k of
                  Inl e \<Rightarrow> Inl e
                | Inr it' \<Rightarrow> revertWalk h1 it' (k' # ks))))"
| "revertWalk h it ks = Inr (h, it)"

text \<open>What a caller passes for \<open>source\<close> or \<open>change\<close>: a change record, or any other
  value (\<open>undefined\<close> when the argument is left out).\<close>

datatype arg = ARecord change | AValue jsval

definition argTruthy :: "arg \<Rightarrow> bool" where
  "argTruthy x = (case x of ARecord c \<Rightarrow> True | AValue v \<Rightarrow> truthy v)"

text \<open>\<open>x.kind\<close> for a truthy \<open>x\<close>.\<close>

definition kindOf :: "heap \<Rightarrow> arg \<Rightarrow> jsval" where
  "kindOf h x =
     (case x of
        ARecord c \<Rightarrow> (case ckind c of None \<Rightarrow> VUndefined | Some k \<Rightarrow> VStr k)
      | AValue v \<Rightarrow>
          (case v of
             VRef a \<Rightarrow> (case deref h a of OObject ps \<Rightarrow> lookup ps ''kind'' | _ \<Rightarrow> VUndefined)
           | _ \<Rightarrow> VUndefined))"

definition validKinds :: "jsval list" where
  "validKinds = [VStr ''N'', VStr ''E'', VStr ''A'', VStr ''D'']"

text \<open>Lines 312 to 341: the body of \<open>applyChange\<close> for a record.\<close>

definition applyRecord :: "heap \<Rightarrow> jsval \<Rightarrow> change \<Rightarrow> error + heap" where
  "applyRecord h target change =
     (case applyWalk h target (pathOf (cpath change)) of
        Inl e \<Rightarrow> Inl e
      | Inr w \<Rightarrow>
          (let h1 = fst w; it = snd w; key = lastKey (pathOf (cpath change))
           in if ckind change = Some ''A'' then
                (if cpath change \<noteq> None then
                   (case getp h1 it key of
                      Inl e \<Rightarrow> Inl e
                    | Inr v \<Rightarrow>
                        (case (if typeof v = ''undefined''
                               then setp (h1 @ [OArray []]) it key (VRef (length h1))
                               else Inr h1) of
                           Inl e \<Rightarrow> Inl e
                         | Inr h2 \<Rightarrow>
                             (case getp h2 it key of
                                Inl e \<Rightarrow> Inl e
                              | Inr arr \<Rightarrow> applyArrayChange h2 arr (cindex change) (citem change))))
                 else applyArrayChange h1 it (cindex change) (citem change))
              else if ckind change = Some ''D'' then
                (if cpath change = None then Inl TypeError else delp h1 it key)
              else if ckind change = Some ''E'' \<or> ckind change = Some ''N'' then
                (if cpath change = None then Inl TypeError else setp h1 it key (crhs change))
              else Inr h1))"

text \<open>\<open>applyChange(target, source, change)\<close>, lines 304 to 343. A heap object that is
  used as a change record leaves the fragment.\<close>

definition applyChange :: "heap \<Rightarrow> jsval \<Rightarrow> arg \<Rightarrow> arg \<Rightarrow> error + heap" where
  "applyChange h target source change0 =
     (let change = (if change0 = AValue VUndefined \<and> argTruthy source
                       \<and> kindOf h source \<in> set validKinds
                    then source else change0)
      in if truthy target \<and> argTruthy change \<and> truthy (kindOf h change) then
           (case change of ARecord c \<Rightarrow> applyRecord h target c | AValue v \<Rightarrow> Inl Unmodelled)
         else Inr h)"

text \<open>Lines 371 to 397: the body of \<open>revertChange\<close> for a record; \<open>change.path.length\<close>
  throws when the record has no path.\<close>

definition revertRecord :: "heap \<Rightarrow> jsval \<Rightarrow> change \<Rightarrow> error + heap" where
  "revertRecord h target change =
     (if cpath change = None then Inl TypeError
      else
        (case revertWalk h target (pathOf (cpath change)) of
           Inl e \<Rightarrow> Inl e
         | Inr w \<Rightarrow>
             (let h1 = fst w; it = snd w; key = lastKey (pathOf (cpath change))
              in if ckind change = Some ''A'' then
                   (case getp h1 it key of
                      Inl e \<Rightarrow> Inl e
                    | Inr arr \<Rightarrow> revertArrayChange h1 arr (cindex change) (citem change))
                 else if ckind change = Some ''D'' \<or> ckind change = Some ''E'' then
                   setp h1 it key (clhs change)
                 else if ckind change = Some ''N'' then delp h1 it key
                 else Inr h1)))"

text \<open>\<open>revertChange(target, source, change)\<close>, lines 369 to 399.\<close>

definition revertChange :: "heap \<Rightarrow> jsval \<Rightarrow> arg \<Rightarrow> arg \<Rightarrow> error + heap" where
  "revertChange h target source change =
     (if truthy target \<and> argTruthy source \<and> argTruthy change \<and> truthy (kindOf h change) then
        (case change of ARecord c \<Rightarrow> revertRecord h target c | AValue v \<Rightarrow> Inl Unmodelled)
      else Inr h)"

section \<open>Notions used in the statements\<close>

text \<open>A recursive call that leaves the heap as it found it whenever
  \<open>orderIndependent\<close> is not set.\<close>

definition keepsHeap :: "differ \<Rightarrow> bool" where
  "keepsHeap self =
     (\<forall>h l r cs pf p k st hc. self h l r cs pf p k st False = Inr hc \<longrightarrow> fst hc = h)"

text \<open>The arrays \<open>[1, 2, 3]\<close> and \<open>[1, 2, 3, 4, 5]\<close>.\<close>

definition numbers :: "int list \<Rightarrow> obj" where
  "numbers xs = OArray (map (\<lambda>i. Some (VNum (Fin i))) xs)"


text \<open>Well-formed heaps: every reference held by an object points into the heap, and
  no date is invalid. A stack as \<open>deepDiff\<close> builds it holds distinct objects of the heap
  on its left-hand sides.\<close>

definition okVal :: "heap \<Rightarrow> jsval \<Rightarrow> bool" where
  "okVal h v = (case v of VRef a \<Rightarrow> a < length h | _ \<Rightarrow> True)"

fun objVals :: "obj \<Rightarrow> jsval list" where
  "objVals (OArray xs) = present xs"
| "objVals (OObject ps) = map snd ps"
| "objVals (ODate t s) = []"
| "objVals (ORegExp s) = []"

definition closedHeap :: "heap \<Rightarrow> bool" where
  "closedHeap h = (\<forall>ob \<in> set h. \<forall>v \<in> set (objVals ob). okVal h v)"

definition validDates :: "heap \<Rightarrow> bool" where
  "validDates h = (\<forall>ob \<in> set h. case ob of ODate t s \<Rightarrow> t \<noteq> NaN | _ \<Rightarrow> True)"

definition okStack :: "heap \<Rightarrow> stack \<Rightarrow> bool" where
  "okStack h st = (distinct (map fst st) \<and> (\<forall>f \<in> set st. \<exists>a. fst f = VRef a \<and> a < length h))"

text \<open>A recursive call that reports nothing for two identical sides.\<close>

definition identical :: "differ \<Rightarrow> heap \<Rightarrow> stack \<Rightarrow> bool" where
  "identical self h st =
     (\<forall>v cs p k. okVal h v \<longrightarrow> isDefined h v fst st k = isDefined h v snd st k \<longrightarrow>
        self h v v cs NoPrefilter p k st False = Inr (h, cs))"

(*PROPERTIES*)
section \<open>Properties of the comparison engine\<close>

subsection \<open>The heap is only written by the sort\<close>

lemma keepsHeapD:
  "keepsHeap self \<Longrightarrow> self h l r cs pf p k st False = Inr hc \<Longrightarrow> fst hc = h"
  unfolding keepsHeap_def by blast

lemma diffElems_keeps:
  assumes "keepsHeap self"
  shows "diffElems self h lhs rhs is cs pf p st False = Inr hc \<Longrightarrow> fst hc = h"
proof (induction "is" arbitrary: h cs)
  case Nil
  then show ?case by auto
next
  case (Cons i "is")
  from Cons.prems obtain l r hc1 where
    s: "self h l r cs pf p (Some (KNum i)) st False = Inr hc1"
    and t: "diffElems self (fst hc1) lhs rhs is (snd hc1) pf p st False = Inr hc"
    by (auto split: sum.splits)
  from t have "fst hc = fst hc1" by (rule Cons.IH)
  with keepsHeapD [OF assms s] show ?case by simp
qed

lemma diffKeysL_keeps:
  assumes "keepsHeap self"
  shows "diffKeysL self h lhs rhs ks pk cs pf p st False = Inr res \<Longrightarrow> fst (fst res) = h"
proof (induction ks arbitrary: h cs pk)
  case Nil
  then show ?case by auto
next
  case (Cons k ks)
  from Cons.prems obtain l r hc1 pk1 where
    s: "self h l r cs pf p (Some (KStr k)) st False = Inr hc1"
    and t: "diffKeysL self (fst hc1) lhs rhs ks pk1 (snd hc1) pf p st False = Inr res"
    by (auto split: sum.splits option.splits)
  from t have "fst (fst res) = fst hc1" by (rule Cons.IH)
  with keepsHeapD [OF assms s] show ?case by simp
qed

lemma diffKeysR_keeps:
  assumes "keepsHeap self"
  shows "diffKeysR self h rhs pk cs pf p st False = Inr hc \<Longrightarrow> fst hc = h"
proof (induction pk arbitrary: h cs)
  case Nil
  then show ?case by auto
next
  case (Cons k pk)
  show ?case
  proof (cases "\<exists>s. k = Some s \<and> s \<noteq> []")
    case True
    with Cons.prems obtain s r hc1 where
      s: "self h VUndefined r cs pf p (Some (KStr s)) st False = Inr hc1"
      and t: "diffKeysR self (fst hc1) rhs pk (snd hc1) pf p st False = Inr hc"
      by (auto split: sum.splits)
    from t have "fst hc = fst hc1" by (rule Cons.IH)
    with keepsHeapD [OF assms s] show ?thesis by simp
  next
    case False
    with Cons.prems have "diffKeysR self h rhs pk cs pf p st False = Inr hc"
      by (cases k) (auto split: if_splits)
    then show ?thesis by (rule Cons.IH)
  qed
qed

lemma descend_keeps:
  assumes "keepsHeap self" and "descend self h a b cs pf p st False = Inr hc"
  shows "fst hc = h"
proof (cases "\<exists>xs. deref h a = OArray xs")
  case True
  with assms(2) show ?thesis
    by (auto simp: descend_def Let_def dest: diffElems_keeps [OF assms(1)])
next
  case False
  with assms(2) obtain r where
    L: "diffKeysL self h (VRef a) (VRef b) (ownKeys (deref h a)) (map Some (ownKeys (deref h b)))
          cs pf p (st @ [(VRef a, VRef b)]) False = Inr r"
    and R: "diffKeysR self (fst (fst r)) (VRef b) (snd r) (snd (fst r)) pf p
          (st @ [(VRef a, VRef b)]) False = Inr hc"
    by (cases "deref h a") (auto simp: descend_def Let_def split: sum.splits)
  from R have "fst hc = fst (fst r)" by (rule diffKeysR_keeps [OF assms(1)])
  with diffKeysL_keeps [OF assms(1) L] show ?thesis by simp
qed

lemma compare_keeps:
  assumes "keepsHeap self" and "compare self h l r cs pf p k st False = Inr hc"
  shows "fst hc = h"
proof (cases "\<exists>a b. l = VRef a \<and> r = VRef b \<and> compare self h l r cs pf p k st False
                  = descend self h a b cs pf p st False")
  case True
  with assms show ?thesis by (metis descend_keeps)
next
  case False
  with assms(2) show ?thesis
    unfolding compare_def Let_def
    by (cases l; cases r) (auto split: if_splits)
qed

lemma body_keeps:
  assumes "keepsHeap self"
  shows "keepsHeap (deepDiffBody self)"
  unfolding keepsHeap_def deepDiffBody_def Let_def
  by (auto split: option.splits dest: compare_keeps [OF assms])

lemma deepDiff_keeps: "keepsHeap (deepDiff n)"
proof (induction n)
  case 0
  show ?case by (simp add: keepsHeap_def)
next
  case (Suc n)
  then show ?case by (simp add: body_keeps)
qed

lemmas diff_defs = diff_def observableDiff_def noOptions_def deepDiffBody_def compare_def
  isDefined_def descend_def tailChanges_def arrayOf_def slot_val_def strict_neq_def isNaN_def
  timeValue_def Let_def

text \<open>
  Claim C10. Without \<open>orderIndependent\<close>, \<open>diff\<close> and \<open>observableDiff\<close> hand back the heap
  they were given: no object reachable from \<open>lhs\<close> or \<open>rhs\<close> (nor any other) is written.
  The observer and the prefilter callbacks are the caller's code and are not part of the
  statement.
\<close>

theorem inputs_unchanged_without_orderIndependent:
  assumes "\<not> orderIndependent opts"
  shows "(diff n h lhs rhs opts = Inr (h', res) \<longrightarrow> h' = h)
       \<and> (observableDiff n h lhs rhs observer st opts = Inr (h'', cs, st') \<longrightarrow> h'' = h)"
proof -
  have "fst hc = h"
    if "deepDiff n h lhs rhs [] pf [] None [] False = Inr hc" for hc pf
    using that by (rule keepsHeapD [OF deepDiff_keeps])
  with assms show ?thesis
    by (auto simp: diff_def observableDiff_def Let_def split: sum.splits)
qed

theorem inputs_unchanged_witness:
  "\<not> orderIndependent noOptions
   \<and> diff 3 [numbers [1, 2], numbers [2, 1]] (VRef 0) (VRef 1) noOptions
     = Inr ([numbers [1, 2], numbers [2, 1]],
            Changes [DiffEdit (Some [KNum 1]) (VNum (Fin 2)) (VNum (Fin 1)),
                     DiffEdit (Some [KNum 0]) (VNum (Fin 1)) (VNum (Fin 2))])"
proof -
  have N: "\<not> orderIndependent noOptions"
    by (simp add: noOptions_def)
  obtain h' res where E: "diff 3 [numbers [1, 2], numbers [2, 1]] (VRef 0) (VRef 1) noOptions = Inr (h', res)"
    by (simp add: diff_defs numbers_def deref_def eval_nat_numeral upt_rec_numeral)
  have "h' = [numbers [1, 2], numbers [2, 1]]"
    by (rule inputs_unchanged_without_orderIndependent [OF N, THEN conjunct1, THEN mp, OF E])
  moreover from E have "res = Changes [DiffEdit (Some [KNum 1]) (VNum (Fin 2)) (VNum (Fin 1)),
                     DiffEdit (Some [KNum 0]) (VNum (Fin 1)) (VNum (Fin 2))]"
    by (simp add: diff_defs numbers_def deref_def eval_nat_numeral upt_rec_numeral)
  ultimately show ?thesis using N E by simp
qed

text \<open>With \<open>orderIndependent\<close> the sort does write to the inputs: here \<open>rhs = [2, 1]\<close> is
  left as \<open>[1, 2]\<close>.\<close>

lemma orderIndependent_sorts_input:
  "diff (Suc (Suc (Suc 0))) [numbers [1, 2], numbers [2, 1]] (VRef 0) (VRef 1)
        (noOptions\<lparr>orderIndependent := True\<rparr>)
     = Inr ([numbers [1, 2], numbers [1, 2]], NoChanges)"
  by (simp add: diff_defs numbers_def deref_def sortBoth_def
      sortByHash_def present_def hashThisString_def show_int_def sum_hashes_def
      show_nat.simps [of "numeral k" for k] show_nat.simps [of 0] show_nat.simps [of "Suc 0"])

subsection \<open>The tail of the longer array\<close>

text \<open>
  Claim C6. Diffing \<open>[1, 2, 3]\<close> against \<open>[1, 2, 3, 4, 5]\<close> (wherever the two arrays live,
  with fuel for the two levels of calls) gives exactly two records, both array changes
  wrapping a new element: index 4 first, then index 3. Nothing is reported for the
  indices 0 to 2.
\<close>

theorem sequence_tail_policy:
  assumes "deref h a = numbers [1, 2, 3]" and "deref h b = numbers [1, 2, 3, 4, 5]"
  shows "diff (Suc (Suc n)) h (VRef a) (VRef b) noOptions =
           Inr (h, Changes [DiffArray (Some []) 4 (DiffNew None (VNum (Fin 5))),
                            DiffArray (Some []) 3 (DiffNew None (VNum (Fin 4)))])"
  using assms
  by (simp add: diff_defs numbers_def upt_rec_numeral) (simp add: eval_nat_numeral)

theorem sequence_tail_policy_witness:
  "diff 2 [numbers [1, 2, 3], numbers [1, 2, 3, 4, 5]] (VRef 0) (VRef 1) noOptions =
     Inr ([numbers [1, 2, 3], numbers [1, 2, 3, 4, 5]],
          Changes [DiffArray (Some []) 4 (DiffNew None (VNum (Fin 5))),
                   DiffArray (Some []) 3 (DiffNew None (VNum (Fin 4)))])"
  using sequence_tail_policy
          [where h = "[numbers [1, 2, 3], numbers [1, 2, 3, 4, 5]]" and a = 0 and b = 1 and n = 0]
  by (simp add: deref_def eval_nat_numeral)

subsection \<open>The accumulator option\<close>

text \<open>
  Claim C3 says that an accumulator passed under the key \<open>accumulator\<close> receives the
  records and is what \<open>diff\<close> returns, also when there is no change. The code reads the key
  \<open>accummulator\<close> (line 181), so what is passed as \<open>accumulator\<close> never reaches it: \<open>diff\<close>
  returns what it returns without that key. At equal inputs that is \<open>undefined\<close>.
\<close>

theorem accumulator_key_ignored:
  "diff n h lhs rhs (opts\<lparr>accumulator := acc\<rparr>) = diff n h lhs rhs opts"
  by (simp add: diff_def split: sum.splits)

theorem accumulator_key_ignored_witness:
  "diff 1 [] (VNum (Fin 1)) (VNum (Fin 1)) (noOptions\<lparr>accumulator := Some []\<rparr>) = Inr ([], NoChanges)
   \<and> diff 1 [] (VNum (Fin 1)) (VNum (Fin 1)) (noOptions\<lparr>accummulator := Some []\<rparr>)
       = Inr ([], Accumulator [])"
  using accumulator_key_ignored
          [where n = 1 and h = "[]" and lhs = "VNum (Fin 1)" and rhs = "VNum (Fin 1)"
             and opts = noOptions and acc = "Some []"]
  by (simp add: diff_defs)

subsection \<open>Equal inputs\<close>

text \<open>
  Claim C5 says that \<open>diff(x, x)\<close> returns \<open>undefined\<close> for every \<open>x\<close>. For an invalid date
  \<open>lhs - rhs\<close> is \<open>NaN\<close>, which is not \<open>0\<close> (line 75), so \<open>diff\<close> reports an edit of the date
  against itself. The comparison of two numbers (line 139) lets \<open>NaN\<close> equal \<open>NaN\<close>; the
  comparison of two dates does not.
\<close>

theorem invalid_date_differs_from_itself:
  assumes "deref h a = ODate NaN s"
  shows "diff (Suc n) h (VRef a) (VRef a) noOptions
           = Inr (h, Changes [DiffEdit (Some []) (VRef a) (VRef a)])"
  using assms by (simp add: diff_defs)

theorem invalid_date_differs_witness:
  "diff 1 [ODate NaN ''Invalid Date''] (VRef 0) (VRef 0) noOptions
     = Inr ([ODate NaN ''Invalid Date''], Changes [DiffEdit (Some []) (VRef 0) (VRef 0)])"
  using invalid_date_differs_from_itself
          [where h = "[ODate NaN ''Invalid Date'']" and a = 0 and s = "''Invalid Date''" and n = 0]
  by (simp add: deref_def)

lemma identicalD:
  "identical self h st \<Longrightarrow> okVal h v \<Longrightarrow> isDefined h v fst st k = isDefined h v snd st k
   \<Longrightarrow> self h v v cs NoPrefilter p k st False = Inr (h, cs)"
  unfolding identical_def by blast

lemma isDefined_same_top: "st \<noteq> [] \<Longrightarrow> fst (last st) = snd (last st)
   \<Longrightarrow> isDefined h v fst st k = isDefined h v snd st k"
  by (simp add: isDefined_def)

lemma okVal_slot:
  assumes "closedHeap h" "a < length h" "h ! a = OArray xs"
  shows "okVal h (slot_val xs i)"
proof -
  have "OArray xs \<in> set h" using assms(2,3) by (metis nth_mem)
  with assms(1) have "\<forall>v \<in> set (present xs). okVal h v" by (auto simp: closedHeap_def)
  then show ?thesis
    by (auto simp: slot_val_def present_def okVal_def split: option.splits)
       (metis nth_mem option.sel)
qed

lemma okVal_lookup:
  assumes "closedHeap h" "a < length h" "h ! a = OObject ps"
  shows "okVal h (lookup ps k)"
proof -
  have "OObject ps \<in> set h" using assms(2,3) by (metis nth_mem)
  with assms(1) have "\<forall>v \<in> set (map snd ps). okVal h v" by (auto simp: closedHeap_def)
  then show ?thesis
    by (auto simp: lookup_def okVal_def split: option.splits dest!: map_of_SomeD)
qed

lemma diffElems_identical:
  assumes "identical self h st" "st \<noteq> []" "fst (last st) = snd (last st)"
    and "closedHeap h" "a < length h" "h ! a = OArray xs"
  shows "diffElems self h (VRef a) (VRef a) is cs NoPrefilter p st False = Inr (h, cs)"
proof (induction "is")
  case Nil
  show ?case by simp
next
  case (Cons i "is")
  have "self h (slot_val xs i) (slot_val xs i) cs NoPrefilter p (Some (KNum i)) st False = Inr (h, cs)"
    using assms by (intro identicalD okVal_slot isDefined_same_top)
  with Cons assms(5,6) show ?case by (simp add: deref_def)
qed

lemma indexOf_after_nones: "indexOf (replicate m None @ Some k # rest) (Some k) = Some m"
  by (induction m) auto

lemma diffKeysL_identical:
  assumes "identical self h st" "st \<noteq> []" "fst (last st) = snd (last st)"
    and "closedHeap h" "a < length h" "h ! a = OObject ps"
  shows "diffKeysL self h (VRef a) (VRef a) ks (replicate m None @ map Some ks) cs NoPrefilter p st False
         = Inr ((h, cs), replicate (m + length ks) None)"
proof (induction ks arbitrary: m)
  case Nil
  show ?case by simp
next
  case (Cons k ks)
  have s: "self h (lookup ps k) (lookup ps k) cs NoPrefilter p (Some (KStr k)) st False = Inr (h, cs)"
    using assms by (intro identicalD okVal_lookup isDefined_same_top)
  have u: "(replicate m None @ Some k # map Some ks)[m := None] = replicate (Suc m) None @ map Some ks"
    by (simp add: list_update_append replicate_append_same)
  from Cons [of "Suc m"] s u assms(5,6) show ?case
    by (simp add: deref_def indexOf_after_nones)
qed

lemma diffKeysR_nones: "diffKeysR self h rhs (replicate m None) cs pf p st oi = Inr (h, cs)"
  by (induction m) auto

lemma descend_identical:
  assumes "identical self h (st @ [(VRef a, VRef a)])" and "closedHeap h"
  shows "descend self h a a cs NoPrefilter p st False = Inr (h, cs)"
proof (cases "a < length h")
  case False
  then show ?thesis by (simp add: descend_def deref_def)
next
  case True
  show ?thesis
  proof (cases "h ! a")
    case (OArray xs)
    with True assms show ?thesis
      by (simp add: descend_def deref_def tailChanges_def arrayOf_def diffElems_identical)
  next
    case (OObject ps)
    with True assms
    have "diffKeysL self h (VRef a) (VRef a) (map fst ps) (replicate 0 None @ map Some (map fst ps)) cs
            NoPrefilter p (st @ [(VRef a, VRef a)]) False
          = Inr ((h, cs), replicate (0 + length (map fst ps)) None)"
      by (intro diffKeysL_identical) auto
    with True OObject show ?thesis
      by (simp add: descend_def deref_def diffKeysR_nones)
  next
    case (ODate t s)
    with True show ?thesis by (simp add: descend_def deref_def)
  next
    case (ORegExp s)
    with True show ?thesis by (simp add: descend_def deref_def)
  qed
qed


lemma okStack_length:
  assumes "okStack h st"
  shows "length st \<le> length h"
proof -
  from assms have d: "distinct (map fst st)" and "set (map fst st) \<subseteq> VRef ` {..<length h}"
    by (auto simp: okStack_def)
  then have "card (set (map fst st)) \<le> card (VRef ` {..<length h})"
    by (intro card_mono) auto
  also have "\<dots> \<le> length h"
    by (metis card_image_le card_lessThan finite_lessThan)
  finally show ?thesis using distinct_card [OF d] by simp
qed

lemma timeValue_valid:
  assumes "validDates h" "realTypeOf h v = ''date''"
  shows "minus_num (timeValue h v) (timeValue h v) = Fin 0"
proof -
  from assms(2) obtain a t s where v: "v = VRef a" and d: "deref h a = ODate t s"
    by (cases v) (auto split: obj.splits)
  then have "a < length h" "h ! a = ODate t s"
    by (auto simp: deref_def split: if_splits)
  then have "ODate t s \<in> set h" by (metis nth_mem)
  with assms(1) have "t \<noteq> NaN" by (auto simp: validDates_def)
  then obtain i where "t = Fin i" by (cases t) auto
  with v d show ?thesis by (simp add: timeValue_def)
qed

lemma compare_identical:
  assumes "isDefined h v fst st k = isDefined h v snd st k" and "validDates h" and "closedHeap h"
    and "\<And>a. v = VRef a \<Longrightarrow> \<not> list_ex (\<lambda>frame. fst frame = v) st
           \<Longrightarrow> identical self h (st @ [(VRef a, VRef a)])"
  shows "compare self h v v cs NoPrefilter cp k st False = Inr (h, cs)"
proof (cases "\<exists>a. v = VRef a")
  case True
  then obtain a where v: "v = VRef a" by blast
  show ?thesis
  proof (cases "list_ex (\<lambda>frame. fst frame = v) st")
    case True
    with v assms(1,2) show ?thesis
      by (simp add: compare_def Let_def timeValue_valid)
  next
    case False
    with assms(4) v have "identical self h (st @ [(VRef a, VRef a)])" by blast
    then have "descend self h a a cs NoPrefilter cp st False = Inr (h, cs)"
      using assms(3) by (rule descend_identical)
    with v False assms(1,2) show ?thesis
      by (simp add: compare_def Let_def timeValue_valid)
  qed
next
  case False
  with assms(1) show ?thesis
    by (cases v) (auto simp: compare_def Let_def strict_neq_def isNaN_def)
qed

lemma deepDiff_identical:
  "closedHeap h \<Longrightarrow> validDates h \<Longrightarrow> okStack h st \<Longrightarrow> length h < n + length st
   \<Longrightarrow> identical (deepDiff n) h st"
proof (induction n arbitrary: st)
  case 0
  with okStack_length [of h st] show ?case by simp
next
  case (Suc n)
  show ?case unfolding identical_def
  proof (intro allI impI)
    fix v cs p k
    assume ok: "okVal h v" and df: "isDefined h v fst st k = isDefined h v snd st k"
    define cp where "cp = (case k of None \<Rightarrow> p | Some k' \<Rightarrow> p @ [k'])"
    have rec: "identical (deepDiff n) h (st @ [(VRef a, VRef a)])"
      if "v = VRef a" "\<not> list_ex (\<lambda>frame. fst frame = v) st" for a
    proof -
      from that ok Suc.prems(3) have "okStack h (st @ [(VRef a, VRef a)])"
        by (auto simp: okStack_def okVal_def list_ex_iff)
      moreover from Suc.prems(4) have "length h < n + length (st @ [(VRef a, VRef a)])" by simp
      ultimately show ?thesis using Suc.prems(1,2) by (intro Suc.IH)
    qed
    have g: "(case k of None \<Rightarrow> Some (v, v) | Some k' \<Rightarrow> gate NoPrefilter p k' v v) = Some (v, v)"
      by (cases k) auto
    show "deepDiff (Suc n) h v v cs NoPrefilter p k st False = Inr (h, cs)"
    proof (cases "realTypeOf h v = ''regexp''")
      case True
      have "compare (deepDiff n) h (VStr (toText h v)) (VStr (toText h v)) cs NoPrefilter cp k st False
            = Inr (h, cs)"
        using Suc.prems(1,2) by (intro compare_identical) (auto simp: isDefined_def)
      with True g show ?thesis by (simp add: deepDiffBody_def Let_def cp_def)
    next
      case False
      have "compare (deepDiff n) h v v cs NoPrefilter cp k st False = Inr (h, cs)"
        using df Suc.prems(1,2) rec by (intro compare_identical) auto
      with False g show ?thesis by (simp add: deepDiffBody_def Let_def cp_def)
    qed
  qed
qed

text \<open>
  Apart from invalid dates the statement about equal inputs holds, cycles included: on a
  well-formed heap without invalid date, \<open>diff(x, x)\<close> with more fuel than the heap has
  objects returns \<open>undefined\<close>. The cycle guard ends the recursion: the stack never
  holds an object twice, so it never grows beyond the number of objects.
\<close>

lemma diff_equal_inputs:
  assumes "closedHeap h" "validDates h" "okVal h x" "length h < n"
  shows "diff n h x x noOptions = Inr (h, NoChanges)"
proof -
  have "identical (deepDiff n) h []"
    using assms by (intro deepDiff_identical) (auto simp: okStack_def)
  then have "deepDiff n h x x [] NoPrefilter [] None [] False = Inr (h, [])"
    using assms(3) by (rule identicalD) (simp add: isDefined_def)
  then show ?thesis by (simp add: diff_def observableDiff_def noOptions_def)
qed

lemma diff_cyclic_example:
  "diff 2 [OObject [(''self'', VRef 0)]] (VRef 0) (VRef 0) noOptions
     = Inr ([OObject [(''self'', VRef 0)]], NoChanges)"
  by (rule diff_equal_inputs) (simp_all add: closedHeap_def validDates_def okVal_def)

section \<open>Properties of the replay engine\<close>

subsection \<open>Calls with two arguments\<close>

text \<open>
  Claim C7. With a record of kind \<open>N\<close>, \<open>D\<close>, \<open>E\<close> or \<open>A\<close>, the call \<open>applyChange(target,
  change)\<close> does what \<open>applyChange(target, source, change)\<close> does, whatever \<open>source\<close> is: the
  same heap afterwards, or the same exception.
\<close>

theorem applyChange_two_arguments:
  assumes "ckind c \<in> {Some ''N'', Some ''D'', Some ''E'', Some ''A''}"
  shows "applyChange h target (ARecord c) (AValue VUndefined) = applyChange h target source (ARecord c)"
  using assms by (auto simp: applyChange_def argTruthy_def kindOf_def validKinds_def)

theorem applyChange_two_arguments_witness:
  "applyChange [OObject [(''a'', VNum (Fin 1))]] (VRef 0)
       (ARecord (DiffNew (Some [KStr ''b'']) (VNum (Fin 2)))) (AValue VUndefined)
     = Inr [OObject [(''a'', VNum (Fin 1)), (''b'', VNum (Fin 2))]]
   \<and> applyChange [OObject [(''a'', VNum (Fin 1))]] (VRef 0) (AValue VNull)
       (ARecord (DiffNew (Some [KStr ''b'']) (VNum (Fin 2))))
     = Inr [OObject [(''a'', VNum (Fin 1)), (''b'', VNum (Fin 2))]]"
proof -
  have "applyChange [OObject [(''a'', VNum (Fin 1))]] (VRef 0) (AValue VNull)
          (ARecord (DiffNew (Some [KStr ''b'']) (VNum (Fin 2))))
        = Inr [OObject [(''a'', VNum (Fin 1)), (''b'', VNum (Fin 2))]]"
    by (simp add: applyChange_def argTruthy_def kindOf_def DiffNew_def applyRecord_def pathOf_def
        lastKey_def keyAt_def deref_def)
  with applyChange_two_arguments
         [where c = "DiffNew (Some [KStr ''b'']) (VNum (Fin 2))"
            and h = "[OObject [(''a'', VNum (Fin 1))]]" and target = "VRef 0"
            and source = "AValue VNull"]
  show ?thesis by (simp add: DiffNew_def)
qed

text \<open>
  Claim C4 says the same of \<open>revertChange(target, change)\<close>. There the code asks for a
  truthy third argument (line 370) and has no line that reads the second argument as the
  record, as line 307 does in \<open>applyChange\<close>: the call with two arguments does nothing.
\<close>

theorem revertChange_two_arguments_noop:
  "revertChange h target (ARecord c) (AValue VUndefined) = Inr h"
  by (simp add: revertChange_def argTruthy_def)

theorem revertChange_two_arguments_witness:
  "revertChange [OObject [(''a'', VNum (Fin 2))]] (VRef 0)
       (ARecord (DiffEdit (Some [KStr ''a'']) (VNum (Fin 1)) (VNum (Fin 2)))) (AValue VUndefined)
     = Inr [OObject [(''a'', VNum (Fin 2))]]
   \<and> revertChange [OObject [(''a'', VNum (Fin 2))]] (VRef 0) (AValue (VBool True))
       (ARecord (DiffEdit (Some [KStr ''a'']) (VNum (Fin 1)) (VNum (Fin 2))))
     = Inr [OObject [(''a'', VNum (Fin 1))]]"
  using revertChange_two_arguments_noop
          [where h = "[OObject [(''a'', VNum (Fin 2))]]" and target = "VRef 0"
             and c = "DiffEdit (Some [KStr ''a'']) (VNum (Fin 1)) (VNum (Fin 2))"]
  by (simp add: revertChange_def argTruthy_def kindOf_def DiffEdit_def revertRecord_def pathOf_def
      lastKey_def keyAt_def deref_def)

subsection \<open>Missing inputs\<close>

text \<open>
  Claim C9. \<open>applyChange\<close> and \<open>revertChange\<close> return without an exception and leave the
  heap as it is when the target is missing (or falsy in any other way), when there is no
  change record, and when the record has no \<open>kind\<close>. Since \<open>applyChange\<close> reads its second
  argument as the record when the third is missing (line 307), a call of \<open>applyChange\<close> has
  no record when the third argument is \<open>undefined\<close> and the second is not a record of a
  valid kind either.
\<close>

theorem missing_inputs_are_noops:
  "(\<not> truthy target \<longrightarrow>
      applyChange h target source change = Inr h \<and> revertChange h target source change = Inr h)
   \<and> (change = AValue VUndefined \<longrightarrow> revertChange h target source change = Inr h)
   \<and> (change = AValue VUndefined \<and> \<not> (argTruthy source \<and> kindOf h source \<in> set validKinds) \<longrightarrow>
        applyChange h target source change = Inr h)
   \<and> (ckind c = None \<longrightarrow>
        applyChange h target source (ARecord c) = Inr h
        \<and> applyChange h target (ARecord c) (AValue VUndefined) = Inr h
        \<and> revertChange h target source (ARecord c) = Inr h)"
  by (auto simp: applyChange_def revertChange_def argTruthy_def kindOf_def validKinds_def)

theorem missing_inputs_witness:
  "applyChange [OObject []] VUndefined (AValue VUndefined)
       (ARecord (DiffNew (Some [KStr ''b'']) (VNum (Fin 2)))) = Inr [OObject []]
   \<and> revertChange [OObject []] VUndefined (AValue (VBool True))
       (ARecord (DiffNew (Some [KStr ''b'']) (VNum (Fin 2)))) = Inr [OObject []]
   \<and> revertChange [OObject []] (VRef 0) (AValue (VBool True)) (AValue VUndefined) = Inr [OObject []]
   \<and> applyChange [OObject []] (VRef 0) (AValue VUndefined) (AValue VUndefined) = Inr [OObject []]
   \<and> applyChange [OObject []] (VRef 0) (AValue VUndefined)
       (ARecord (Change None (Some [KStr ''b'']) VUndefined (VNum (Fin 2)) None None)) = Inr [OObject []]
   \<and> revertChange [OObject []] (VRef 0) (AValue (VBool True))
       (ARecord (Change None (Some [KStr ''b'']) VUndefined (VNum (Fin 2)) None None)) = Inr [OObject []]"
  using missing_inputs_are_noops
          [where target = VUndefined and h = "[OObject []]" and source = "AValue VUndefined"
             and change = "ARecord (DiffNew (Some [KStr ''b'']) (VNum (Fin 2)))"
             and c = "Change None (Some [KStr ''b'']) VUndefined (VNum (Fin 2)) None None"]
        missing_inputs_are_noops
          [where target = "VRef 0" and h = "[OObject []]" and source = "AValue (VBool True)"
             and change = "AValue VUndefined"
             and c = "Change None (Some [KStr ''b'']) VUndefined (VNum (Fin 2)) None None"]
  by (simp add: applyChange_def revertChange_def argTruthy_def kindOf_def validKinds_def)

section \<open>Properties of the order-independent hash\<close>








end
